theory Spec2Isabelle
  imports Main
begin

section \<open>Python strings\<close>

text \<open>
  The string operations the parsers of \<^verbatim>\<open>database.py\<close> and \<^verbatim>\<open>account_manager.py\<close> use.
  Characters are restricted to ASCII; \<open>isspace\<close> is Python's \<^verbatim>\<open>str.isspace\<close> there
  (codes 9 to 13 and 28 to 32), which is also what the regular expression class
  \<^verbatim>\<open>\s\<close> matches on \<^verbatim>\<open>str\<close> patterns.
\<close>

definition isspace :: "char \<Rightarrow> bool" where
  "isspace c = (let n = (of_char c :: nat) in (9 \<le> n \<and> n \<le> 13) \<or> (28 \<le> n \<and> n \<le> 32))"

text \<open>\<^verbatim>\<open>s.strip()\<close>\<close>

definition strip :: "string \<Rightarrow> string" where
  "strip s = rev (dropWhile isspace (rev (dropWhile isspace s)))"

text \<open>\<^verbatim>\<open>s.startswith(p)\<close>\<close>

definition startswith :: "string \<Rightarrow> string \<Rightarrow> bool" where
  "startswith s p = (take (length p) s = p)"

text \<open>\<^verbatim>\<open>sub in s\<close>\<close>

fun contains :: "string \<Rightarrow> string \<Rightarrow> bool" where
  "contains sub [] = (sub = [])"
| "contains sub (c # cs) = (startswith (c # cs) sub \<or> contains sub cs)"

text \<open>
  \<^verbatim>\<open>s.split(sep)\<close> for a non-empty separator: the occurrences of \<open>sep\<close> are found from
  the left and do not overlap. \<open>k\<close> counts the characters of a separator that are still
  to be skipped, \<open>acc\<close> is the piece read so far.
\<close>

fun split_from :: "string \<Rightarrow> nat \<Rightarrow> string \<Rightarrow> string \<Rightarrow> string list" where
  "split_from sep k acc [] = [acc]"
| "split_from sep k acc (c # cs) =
     (if 0 < k then split_from sep (k - 1) acc cs
      else if startswith (c # cs) sep then acc # split_from sep (length sep - 1) [] cs
      else split_from sep 0 (acc @ [c]) cs)"

definition py_split :: "string \<Rightarrow> string \<Rightarrow> string list" where
  "py_split s sep = split_from sep 0 [] s"

text \<open>\<^verbatim>\<open>s.replace(old, new)\<close> for a non-empty \<open>old\<close>.\<close>

fun replace_from :: "string \<Rightarrow> string \<Rightarrow> nat \<Rightarrow> string \<Rightarrow> string" where
  "replace_from old new k [] = []"
| "replace_from old new k (c # cs) =
     (if 0 < k then replace_from old new (k - 1) cs
      else if startswith (c # cs) old then new @ replace_from old new (length old - 1) cs
      else c # replace_from old new 0 cs)"

definition py_replace :: "string \<Rightarrow> string \<Rightarrow> string \<Rightarrow> string" where
  "py_replace s old new = replace_from old new 0 s"

text \<open>
  \<^verbatim>\<open>re.search(r'https?://[^\s]+', line)\<close>: the leftmost position where \<^verbatim>\<open>http://\<close> or
  \<^verbatim>\<open>https://\<close> starts and at least one non-space character follows; the match is
  greedy, it runs to the next white space or to the end of the line.
\<close>

definition match_link_at :: "string \<Rightarrow> string option" where
  "match_link_at s =
     (case (if startswith s ''https://'' then Some ''https://''
            else if startswith s ''http://'' then Some ''http://'' else None) of
        None \<Rightarrow> None
      | Some p \<Rightarrow>
          (let body = takeWhile (\<lambda>c. \<not> isspace c) (drop (length p) s)
           in if body = [] then None else Some (p @ body)))"

fun search_link :: "string \<Rightarrow> string option" where
  "search_link [] = None"
| "search_link (c # cs) =
     (case match_link_at (c # cs) of Some m \<Rightarrow> Some m | None \<Rightarrow> search_link cs)"

text \<open>\<^verbatim>\<open>parts[n] if len(parts) >= n + 1 else None\<close>\<close>

fun nth_opt :: "'a list \<Rightarrow> nat \<Rightarrow> 'a option" where
  "nth_opt [] n = None"
| "nth_opt (x # xs) 0 = Some x"
| "nth_opt (x # xs) (Suc n) = nth_opt xs n"

section \<open>Account lines\<close>

text \<open>Both parsers return the tuple \<^verbatim>\<open>(email, password, recovery_email, secret_key, link)\<close>.\<close>

type_synonym parsed =
  "string option \<times> string option \<times> string option \<times> string option \<times> string option"

text \<open>
  \<^verbatim>\<open>DBManager._simple_parse\<close> (database.py): cut the line at the first \<^verbatim>\<open>#\<close>, take the
  first \<^verbatim>\<open>http(s)://\<close> match as the link and remove it from the line, choose the
  separator, split, strip, drop the empty parts and assign the first four in order.
\<close>

definition simple_parse :: "string \<Rightarrow> parsed" where
  "simple_parse line0 =
     (let line1 = (if contains ''#'' line0
                   then (case py_split line0 ''#'' of [] \<Rightarrow> [] | p # _ \<Rightarrow> strip p)
                   else line0)
      in if line1 = [] then (None, None, None, None, None)
         else
           let link = search_link line1;
               line2 = (case link of Some l \<Rightarrow> strip (py_replace line1 l []) | None \<Rightarrow> line1);
               separator = (if contains ''----'' line2 then ''----''
                            else (case find (\<lambda>sep. contains sep line2)
                                         [''---'', ''|'', '','', '';'', [CHR 0x09]] of
                                    Some sep \<Rightarrow> sep | None \<Rightarrow> ''----''));
               parts = filter (\<lambda>p. p \<noteq> []) (map strip (py_split line2 separator))
           in (nth_opt parts 0, nth_opt parts 1, nth_opt parts 2, nth_opt parts 3, link))"

text \<open>
  The loop of \<^verbatim>\<open>AccountManager._parse\<close> over \<^verbatim>\<open>enumerate(parts)\<close>: the first part with
  an \<^verbatim>\<open>@\<close> and a dot is the email, the three parts after it follow in order.
\<close>

fun find_email ::
  "string list \<Rightarrow> string option \<times> string option \<times> string option \<times> string option" where
  "find_email [] = (None, None, None, None)"
| "find_email (p # ps) =
     (if contains ''@'' p \<and> contains ''.'' p
      then (Some p, nth_opt ps 0, nth_opt ps 1, nth_opt ps 2)
      else find_email ps)"

text \<open>\<^verbatim>\<open>AccountManager._parse\<close> (account_manager.py).\<close>

definition parse :: "string \<Rightarrow> parsed" where
  "parse line =
     (let parts0 = filter (\<lambda>p. p \<noteq> []) (map strip (py_split line ''----''));
          (link, parts) = (case parts0 of
                             p # ps \<Rightarrow> if contains ''http'' p then (Some p, ps) else (None, parts0)
                           | [] \<Rightarrow> (None, parts0));
          (em, pwd, rc, sec) = find_email parts
      in (em, pwd, rc, sec, link))"

section \<open>The account store\<close>

text \<open>
  One row of the table \<^verbatim>\<open>accounts\<close> of database.py. \<open>email\<close> is the primary key; the
  other text columns are nullable. \<open>updated_at\<close> holds a clock reading in seconds
  (\<^verbatim>\<open>CURRENT_TIMESTAMP\<close>). The table is the list of its rows in rowid order, which is the
  order \<^verbatim>\<open>SELECT * FROM accounts\<close> returns them in.
\<close>

record account_row =
  col_email :: string
  col_password :: "string option"
  col_recovery_email :: "string option"
  col_secret_key :: "string option"
  col_verification_link :: "string option"
  col_status :: "string option"
  col_message :: "string option"
  col_updated_at :: nat

type_synonym db = "account_row list"

text \<open>
  The storage operations that can raise. A fault oracle says which of them raise during
  one call; \<open>Open_file name\<close> is \<^verbatim>\<open>open(name, 'w')\<close> of the export.
\<close>

datatype db_op = Connect | Execute_select | Execute_update | Execute_insert | Commit
  | Open_file string

type_synonym faults = "db_op \<Rightarrow> bool"

text \<open>How a call ends: it returns, or an exception leaves it.\<close>

datatype outcome = Returned | Raised db_op

text \<open>What the store prints.\<close>

datatype db_log =
    Skipped_empty_email
  | Updated string "string option"
  | Inserted string string
  | Upsert_failed string db_op
  | Exported string nat
  | Export_failed db_op

datatype column = Password | Recovery_email | Secret_key | Verification_link | Status | Message

text \<open>
  The lists \<^verbatim>\<open>fields\<close> and \<^verbatim>\<open>values\<close> of \<^verbatim>\<open>upsert_account\<close>: one entry for each argument
  that \<^verbatim>\<open>is not None\<close>, in the order of the source.
\<close>

definition supplied :: "column \<Rightarrow> string option \<Rightarrow> (column \<times> string) list" where
  "supplied c v = (case v of Some x \<Rightarrow> [(c, x)] | None \<Rightarrow> [])"

definition update_fields ::
  "string option \<Rightarrow> string option \<Rightarrow> string option \<Rightarrow> string option \<Rightarrow> string option
     \<Rightarrow> string option \<Rightarrow> (column \<times> string) list" where
  "update_fields pw rc sk lk st msg =
     supplied Password pw @ supplied Recovery_email rc @ supplied Secret_key sk
       @ supplied Verification_link lk @ supplied Status st @ supplied Message msg"

fun set_column :: "account_row \<Rightarrow> column \<times> string \<Rightarrow> account_row" where
  "set_column r (Password, v) = r\<lparr>col_password := Some v\<rparr>"
| "set_column r (Recovery_email, v) = r\<lparr>col_recovery_email := Some v\<rparr>"
| "set_column r (Secret_key, v) = r\<lparr>col_secret_key := Some v\<rparr>"
| "set_column r (Verification_link, v) = r\<lparr>col_verification_link := Some v\<rparr>"
| "set_column r (Status, v) = r\<lparr>col_status := Some v\<rparr>"
| "set_column r (Message, v) = r\<lparr>col_message := Some v\<rparr>"

text \<open>\<^verbatim>\<open>UPDATE accounts SET ..., updated_at = CURRENT_TIMESTAMP WHERE email = ?\<close>\<close>

definition sql_update :: "nat \<Rightarrow> (column \<times> string) list \<Rightarrow> string \<Rightarrow> db \<Rightarrow> db" where
  "sql_update now assignments em rows =
     map (\<lambda>r. if col_email r = em then (foldl set_column r assignments)\<lparr>col_updated_at := now\<rparr> else r)
       rows"

text \<open>The \<^verbatim>\<open>INSERT\<close> of a new row; \<^verbatim>\<open>status or 'pending'\<close> is its status.\<close>

definition sql_insert ::
  "nat \<Rightarrow> string \<Rightarrow> string option \<Rightarrow> string option \<Rightarrow> string option \<Rightarrow> string option
     \<Rightarrow> string option \<Rightarrow> string option \<Rightarrow> db \<Rightarrow> db" where
  "sql_insert now em pw rc sk lk st msg rows =
     rows @ [\<lparr>col_email = em, col_password = pw, col_recovery_email = rc, col_secret_key = sk,
              col_verification_link = lk,
              col_status = Some (case st of Some s \<Rightarrow> if s = [] then ''pending'' else s
                                 | None \<Rightarrow> ''pending''),
              col_message = msg, col_updated_at = now\<rparr>]"

text \<open>
  The body of the \<^verbatim>\<open>try\<close> block of \<^verbatim>\<open>upsert_account\<close>. \<open>Inl\<close> is an exception of the
  storage layer; it is raised before the commit, so the table is as it was.
\<close>

definition upsert_body ::
  "faults \<Rightarrow> nat \<Rightarrow> db \<Rightarrow> string \<Rightarrow> string option \<Rightarrow> string option \<Rightarrow> string option
     \<Rightarrow> string option \<Rightarrow> string option \<Rightarrow> string option \<Rightarrow> db_op + (db \<times> db_log list)" where
  "upsert_body F now rows em pw rc sk lk st msg =
     (if F Connect then Inl Connect
      else if F Execute_select then Inl Execute_select
      else case find (\<lambda>r. col_email r = em) rows of
        Some r \<Rightarrow>
          (let assignments = update_fields pw rc sk lk st msg in
           if assignments \<noteq> [] then
             (if F Execute_update then Inl Execute_update
              else if F Commit then Inl Commit
              else Inr (sql_update now assignments em rows, [Updated em st]))
           else if F Commit then Inl Commit else Inr (rows, []))
      | None \<Rightarrow>
          (if F Execute_insert then Inl Execute_insert
           else if F Commit then Inl Commit
           else Inr (sql_insert now em pw rc sk lk st msg rows,
                     [Inserted em (case st of Some s \<Rightarrow> if s = [] then ''pending'' else s
                                   | None \<Rightarrow> ''pending'')])))"

text \<open>
  \<^verbatim>\<open>DBManager.upsert_account\<close>: an empty email is skipped; every exception of the body is
  caught by \<^verbatim>\<open>except Exception\<close>, printed, and the call returns.
\<close>

definition upsert_account ::
  "faults \<Rightarrow> nat \<Rightarrow> db \<Rightarrow> string \<Rightarrow> string option \<Rightarrow> string option \<Rightarrow> string option
     \<Rightarrow> string option \<Rightarrow> string option \<Rightarrow> string option \<Rightarrow> outcome \<times> db \<times> db_log list" where
  "upsert_account F now rows em pw rc sk lk st msg =
     (if em = [] then (Returned, rows, [Skipped_empty_email])
      else case upsert_body F now rows em pw rc sk lk st msg of
        Inr (rows', lg) \<Rightarrow> (Returned, rows', lg)
      | Inl e \<Rightarrow> (Returned, rows, [Upsert_failed em e]))"

text \<open>\<^verbatim>\<open>DBManager.get_all_accounts\<close>: no handler here, an exception leaves the call.\<close>

definition get_all_accounts :: "faults \<Rightarrow> db \<Rightarrow> db_op + account_row list" where
  "get_all_accounts F rows =
     (if F Connect then Inl Connect
      else if F Execute_select then Inl Execute_select
      else Inr rows)"

text \<open>
  Reading one account back: the source has no single-row query, the callers look the
  email up among the rows \<^verbatim>\<open>get_all_accounts\<close> returns.
\<close>

definition read_account :: "faults \<Rightarrow> db \<Rightarrow> string \<Rightarrow> db_op + account_row option" where
  "read_account F rows em =
     (case get_all_accounts F rows of
        Inl e \<Rightarrow> Inl e
      | Inr rs \<Rightarrow> Inr (find (\<lambda>r. col_email r = em) rs))"

subsection \<open>Export\<close>

text \<open>\<^verbatim>\<open>files_map\<close> of \<^verbatim>\<open>export_to_files\<close>, in the order of the dictionary.\<close>

definition files_map :: "(string \<times> string) list" where
  "files_map =
     [(''link_ready'', ''sheerIDlink.txt''),
      (''verified'', ''verified_no_card.txt''),
      (''subscribed'', ''subscribed.txt''),
      (''ineligible'', ''ineligible.txt''),
      (''error'', ''error.txt'')]"

definition pending_file :: string where
  "pending_file = ''eligible_pending.txt''"

definition view_files :: "string list" where
  "view_files = map snd files_map @ [pending_file]"

text \<open>A column is appended to the line when it is neither \<^verbatim>\<open>NULL\<close> nor empty.\<close>

definition field_suffix :: "string option \<Rightarrow> string" where
  "field_suffix v = (case v of Some s \<Rightarrow> if s \<noteq> [] then ''----'' @ s else [] | None \<Rightarrow> [])"

definition line_acc :: "account_row \<Rightarrow> string" where
  "line_acc r =
     col_email r @ field_suffix (col_password r) @ field_suffix (col_recovery_email r)
       @ field_suffix (col_secret_key r)"

text \<open>
  One iteration of the grouping loop: \<open>data\<close> maps each status of \<open>files_map\<close> to its
  lines, \<open>pend\<close> is \<^verbatim>\<open>pending_data\<close>.
\<close>

definition add_row ::
  "(string \<rightharpoonup> string list) \<times> string list \<Rightarrow> account_row
     \<Rightarrow> (string \<rightharpoonup> string list) \<times> string list" where
  "add_row acc r =
     (let (data, pend) = acc; st = col_status r in
      if st = Some ''running'' \<or> st = Some ''processing'' then (data, pend)
      else if st = Some ''link_ready'' then
        ((case col_verification_link r of
            Some l \<Rightarrow>
              if l \<noteq> [] then
                (case data ''link_ready'' of
                   Some ls \<Rightarrow> data(''link_ready'' \<mapsto> ls @ [l @ ''----'' @ line_acc r])
                 | None \<Rightarrow> data)
              else data
          | None \<Rightarrow> data),
         pend @ [line_acc r])
      else (case st of
              Some s \<Rightarrow>
                (case data s of
                   Some ls \<Rightarrow> (data(s \<mapsto> ls @ [line_acc r]), pend)
                 | None \<Rightarrow> (data, pend))
            | None \<Rightarrow> (data, pend)))"

definition group_rows :: "db \<Rightarrow> (string \<rightharpoonup> string list) \<times> string list" where
  "group_rows rows =
     foldl add_row (map_of (map (\<lambda>(k, f). (k, [])) files_map), []) rows"

text \<open>The text written to a file: every line followed by a newline.\<close>

definition file_text :: "string list \<Rightarrow> string" where
  "file_text ls = concat (map (\<lambda>l. l @ [CHR 0x0A]) ls)"

type_synonym fs = "string \<rightharpoonup> string"

text \<open>
  The loop that writes the main files. \<open>Inl\<close>: \<^verbatim>\<open>open\<close> raised at some file; the files
  written before it stay written.
\<close>

fun write_main ::
  "faults \<Rightarrow> (string \<rightharpoonup> string list) \<Rightarrow> (string \<times> string) list \<Rightarrow> fs \<Rightarrow> db_log list
     \<Rightarrow> (db_op \<times> fs \<times> db_log list) + (fs \<times> db_log list)" where
  "write_main F data [] files lg = Inr (files, lg)"
| "write_main F data ((st, name) # rest) files lg =
     (if F (Open_file name) then Inl (Open_file name, files, lg)
      else
        let ls = (case data st of Some ls \<Rightarrow> ls | None \<Rightarrow> [])
        in write_main F data rest (files(name \<mapsto> file_text ls)) (lg @ [Exported name (length ls)]))"

text \<open>
  \<^verbatim>\<open>DBManager.export_to_files\<close>: read all rows, group them, overwrite the five status
  files and then the pending file. Every exception is caught and printed.
\<close>

definition export_to_files :: "faults \<Rightarrow> db \<Rightarrow> fs \<Rightarrow> outcome \<times> fs \<times> db_log list" where
  "export_to_files F rows files =
     (if F Connect then (Returned, files, [Export_failed Connect])
      else if F Execute_select then (Returned, files, [Export_failed Execute_select])
      else
        let (data, pend) = group_rows rows in
        case write_main F data files_map files [] of
          Inl (e, files', lg) \<Rightarrow> (Returned, files', lg @ [Export_failed e])
        | Inr (files', lg) \<Rightarrow>
            if F (Open_file pending_file)
            then (Returned, files', lg @ [Export_failed (Open_file pending_file)])
            else (Returned, files'(pending_file \<mapsto> file_text pend),
                  lg @ [Exported pending_file (length pend)]))"

section \<open>The link-ready handler\<close>

text \<open>
  \<^verbatim>\<open>AccountManager.save_link\<close>, \<^verbatim>\<open>move_to_verified\<close> and their siblings: parse the line
  with \<open>parse\<close>, and when it has an email, upsert the account with the given status and
  export. Neither call can raise. (The \<^verbatim>\<open>[AM]\<close> prints are left out.)
\<close>

definition move_to ::
  "string \<Rightarrow> faults \<Rightarrow> nat \<Rightarrow> string \<Rightarrow> db \<times> fs \<Rightarrow> db \<times> fs \<times> db_log list" where
  "move_to status F now line store =
     (let (rows, files) = store; (em, pwd, rc, sec, link) = parse line in
      (case em of
         None \<Rightarrow> (rows, files, [])
       | Some e \<Rightarrow>
           if e = [] then (rows, files, [])
           else
             let (o1, rows', lg1) = upsert_account F now rows e pwd rc sec link (Some status) None;
                 (o2, files', lg2) = export_to_files F rows' files
             in (rows', files', lg1 @ lg2)))"

definition save_link :: "faults \<Rightarrow> nat \<Rightarrow> string \<Rightarrow> db \<times> fs \<Rightarrow> db \<times> fs \<times> db_log list" where
  "save_link = move_to ''link_ready''"

definition move_to_verified ::
  "faults \<Rightarrow> nat \<Rightarrow> string \<Rightarrow> db \<times> fs \<Rightarrow> db \<times> fs \<times> db_log list" where
  "move_to_verified = move_to ''verified''"

text \<open>
  The attributes of a \<^verbatim>\<open>SheerIDVerifier\<close> instance (sheerid_verifier.py): the fields set by
  \<^verbatim>\<open>__init__\<close> and the methods of the class. \<open>getattr\<close> is the attribute access
  \<^verbatim>\<open>verifier.name\<close>, which raises \<^verbatim>\<open>AttributeError\<close> for any other name.
\<close>

definition SheerIDVerifier_attributes :: "string list" where
  "SheerIDVerifier_attributes =
     [''session'', ''api_key'', ''csrf_token'', ''headers'',
      ''__init__'', ''_get_csrf_token'', ''verify_batch'', ''_handle_api_response'',
      ''_poll_status'', ''cancel_verification'']"

definition getattr :: "string list \<Rightarrow> string \<Rightarrow> string + string" where
  "getattr attributes name =
     (if name \<in> set attributes then Inr name
      else Inl (''SheerIDVerifier object has no attribute '' @ name))"

text \<open>
  What the handler's collaborators answer during one run: the link the page yields (or
  none), what a call of the looked-up verifier method would return
  \<^verbatim>\<open>(success, vid, msg)\<close>, what \<^verbatim>\<open>page.reload\<close> raises (if it does), and what
  \<^verbatim>\<open>auto_bind_card\<close> returns (\<open>Inl\<close>: it raises).
\<close>

record page =
  extracted_link :: "string option"
  verify_answer :: "bool \<times> string \<times> string"
  reload_answer :: "string option"
  bind_answer :: "string + (bool \<times> string)"

record card =
  number :: string
  exp_month :: string
  exp_year :: string
  cvv :: string

text \<open>The steps of the handlers that act on the world, in the order they are taken.\<close>

datatype step = Save_link | Construct_verifier | Call_verifier | Move_to_verified
  | Reload_page | Bind_card

text \<open>\<^verbatim>\<open>AutoAllInOneWorker._handle_verified\<close>\<close>

definition handle_verified :: "page \<Rightarrow> card option \<Rightarrow> (bool \<times> string) \<times> step list" where
  "handle_verified pg card_info =
     (case card_info of
        None \<Rightarrow> ((False, ''No card available''), [])
      | Some c \<Rightarrow>
          (case bind_answer pg of
             Inl e \<Rightarrow> ((False, ''Error during card binding: '' @ e), [Bind_card])
           | Inr (success, m) \<Rightarrow>
               if success
               then ((True, ''Full flow complete: Card bound and subscribed''), [Bind_card])
               else ((False, ''Card binding failed: '' @ m), [Bind_card])))"

text \<open>
  \<^verbatim>\<open>AutoAllInOneWorker._handle_link_ready\<close>: extract the link, save it, construct the
  verifier, look up \<^verbatim>\<open>verify_single\<close> on it and call it, move the account to verified,
  reload, bind the card. Every exception is caught by the handler's own
  \<^verbatim>\<open>except Exception\<close> and turned into a failure. The module \<^verbatim>\<open>account_manager\<close> is
  taken to be loaded already, so its import inside the handler does nothing.
\<close>

definition handle_link_ready ::
  "faults \<Rightarrow> nat \<Rightarrow> page \<Rightarrow> string \<Rightarrow> card option \<Rightarrow> db \<times> fs
     \<Rightarrow> (bool \<times> string) \<times> (db \<times> fs) \<times> step list" where
  "handle_link_ready F now pg em card_info store =
     (case extracted_link pg of
        None \<Rightarrow> ((False, ''Cannot extract SheerID link''), store, [])
      | Some link \<Rightarrow>
          if link = [] then ((False, ''Cannot extract SheerID link''), store, [])
          else
            let line = link @ ''----'' @ em;
                (rows1, files1, lg1) = save_link F now line store
            in (case getattr SheerIDVerifier_attributes ''verify_single'' of
                 Inl e \<Rightarrow>
                   ((False, ''Error handling link_ready status: '' @ e), (rows1, files1),
                    [Save_link, Construct_verifier])
               | Inr attr \<Rightarrow>
                   (let (success, vid, msg) = verify_answer pg in
                    if \<not> success
                    then ((False, ''SheerID verification failed: '' @ msg), (rows1, files1),
                          [Save_link, Construct_verifier, Call_verifier])
                    else
                      let (rows2, files2, lg2) = move_to_verified F now line (rows1, files1) in
                      (case reload_answer pg of
                         Some e \<Rightarrow>
                           ((False, ''Error handling link_ready status: '' @ e),
                            (rows2, files2),
                            [Save_link, Construct_verifier, Call_verifier, Move_to_verified,
                             Reload_page])
                       | None \<Rightarrow>
                           let (res, steps) = handle_verified pg card_info
                           in (res, (rows2, files2),
                               [Save_link, Construct_verifier, Call_verifier, Move_to_verified,
                                Reload_page] @ steps)))))"

section \<open>The verification client\<close>

text \<open>
  JSON values as \<^verbatim>\<open>json.loads\<close> and \<^verbatim>\<open>resp.json()\<close> return them; \<open>JNull\<close> is Python's
  \<^verbatim>\<open>None\<close>, an object is the list of its items (keys distinct).
\<close>

datatype json = JNull | JBool bool | JNum int | JStr string | JArr "json list"
  | JObj "(string \<times> json) list"

text \<open>Python's truth value of a JSON value (\<^verbatim>\<open>if not vid\<close>).\<close>

fun truthy :: "json \<Rightarrow> bool" where
  "truthy JNull = False"
| "truthy (JBool b) = b"
| "truthy (JNum n) = (n \<noteq> 0)"
| "truthy (JStr s) = (s \<noteq> [])"
| "truthy (JArr xs) = (xs \<noteq> [])"
| "truthy (JObj kvs) = (kvs \<noteq> [])"

text \<open>\<^verbatim>\<open>d.get(k)\<close> and \<^verbatim>\<open>d.get(k, default)\<close> on a dictionary.\<close>

definition dict_get :: "(string \<times> json) list \<Rightarrow> string \<Rightarrow> json" where
  "dict_get d k = (case map_of d k of Some v \<Rightarrow> v | None \<Rightarrow> JNull)"

definition dict_get_default :: "(string \<times> json) list \<Rightarrow> string \<Rightarrow> json \<Rightarrow> json" where
  "dict_get_default d k dflt = (case map_of d k of Some v \<Rightarrow> v | None \<Rightarrow> dflt)"

text \<open>
  The key under which \<^verbatim>\<open>results[vid] = ...\<close> stores: strings, numbers and \<^verbatim>\<open>None\<close> are
  hashable (\<^verbatim>\<open>True\<close> and \<^verbatim>\<open>False\<close> are the keys 1 and 0), lists and dictionaries raise
  \<^verbatim>\<open>TypeError\<close>.
\<close>

fun dict_key :: "json \<Rightarrow> json option" where
  "dict_key (JBool b) = Some (JNum (if b then 1 else 0))"
| "dict_key (JArr xs) = None"
| "dict_key (JObj kvs) = None"
| "dict_key v = Some v"

text \<open>
  A result of the client: the dictionary the service sent, or one of the client's own
  dictionaries \<^verbatim>\<open>{"status": "error", "message": ...}\<close>, kept apart by what the message
  says.
\<close>

datatype failure =
    Token_refresh_failed
  | Http_status nat string
  | Request_failed string
  | Polling_budget_exhausted

datatype result = Service json | Local_error failure

type_synonym results = "json \<rightharpoonup> result"

text \<open>The texts handed to the progress callback, with the values they interpolate.\<close>

datatype callback_msg =
    Step_msg json json
  | Polling_msg json nat json
  | Polling_timeout_msg nat
  | Polling_error_msg string nat

text \<open>What the client does to the world, in order.\<close>

datatype event =
    Csrf_fetch
  | Batch_post "string option"
  | Sleep nat
  | Check_post json
  | Callback json callback_msg

text \<open>
  The service as the client meets it. \<open>csrf_page n\<close>: the token \<^verbatim>\<open>_get_csrf_token\<close> finds
  on its \<open>n\<close>-th call (\<open>None\<close>: it returns \<^verbatim>\<open>False\<close>, whether the request failed or no
  pattern matched). \<open>batch_answer n\<close>: what the \<open>n\<close>-th \<^verbatim>\<open>POST /api/batch\<close> does.
  \<open>check_answer token i\<close>: what \<^verbatim>\<open>POST /api/check-status\<close> with this token does on
  iteration \<open>i\<close> of a polling loop. \<open>json_loads\<close> is the library's parser
  (\<open>None\<close>: \<^verbatim>\<open>JSONDecodeError\<close>).
\<close>

datatype check_reply = Check_timeout | Check_raises string | Check_json json

datatype stream_item = Line string | Undecodable | Broken string

datatype batch_reply = Post_raises string | Response nat string "stream_item list"

record service =
  csrf_page :: "nat \<Rightarrow> string option"
  batch_answer :: "nat \<Rightarrow> batch_reply"
  check_answer :: "json \<Rightarrow> nat \<Rightarrow> check_reply"
  json_loads :: "string \<Rightarrow> json option"

text \<open>\<^verbatim>\<open>if callback: callback(vid, msg)\<close>\<close>

definition callback :: "bool \<Rightarrow> json \<Rightarrow> callback_msg \<Rightarrow> event list" where
  "callback cb vid m = (if cb then [Callback vid m] else [])"

text \<open>
  The loop of \<^verbatim>\<open>SheerIDVerifier._poll_status\<close> over the remaining values of
  \<^verbatim>\<open>range(60)\<close>, with the current \<^verbatim>\<open>check_token\<close>. A body that is no dictionary makes
  \<^verbatim>\<open>json_data.get\<close> raise, which the second handler catches.
\<close>

fun poll_attempts ::
  "service \<Rightarrow> bool \<Rightarrow> json \<Rightarrow> nat list \<Rightarrow> json \<Rightarrow> result \<times> event list" where
  "poll_attempts sv cb vid [] tok = (Local_error Polling_budget_exhausted, [])"
| "poll_attempts sv cb vid (i # rest) tok =
     (case check_answer sv tok i of
        Check_timeout \<Rightarrow>
          (let (r, ev) = poll_attempts sv cb vid rest tok
           in (r, [Sleep 2, Check_post tok] @ callback cb vid (Polling_timeout_msg (i + 1)) @ ev))
      | Check_raises e \<Rightarrow>
          (let (r, ev) = poll_attempts sv cb vid rest tok
           in (r, [Sleep 2, Check_post tok]
                  @ callback cb vid (Polling_error_msg (take 50 e) (i + 1)) @ ev))
      | Check_json j \<Rightarrow>
          (case j of
             JObj d \<Rightarrow>
               (let status = dict_get d ''currentStep'';
                    message = dict_get_default d ''message'' (JStr [])
                in if status = JStr ''success'' \<or> status = JStr ''error''
                   then (Service j,
                         [Sleep 2, Check_post tok]
                           @ callback cb vid (Polling_msg status (i + 1) message))
                   else
                     let tok' = (case map_of d ''checkToken'' of Some t \<Rightarrow> t | None \<Rightarrow> tok);
                         (r, ev) = poll_attempts sv cb vid rest tok'
                     in (r, [Sleep 2, Check_post tok]
                            @ callback cb vid (Polling_msg status (i + 1) message) @ ev))
           | _ \<Rightarrow>
               (let (r, ev) = poll_attempts sv cb vid rest tok
                in (r, [Sleep 2, Check_post tok]
                       @ callback cb vid (Polling_error_msg ''AttributeError'' (i + 1)) @ ev))))"

text \<open>\<^verbatim>\<open>SheerIDVerifier._poll_status(check_token, vid, callback)\<close>\<close>

definition poll_status :: "service \<Rightarrow> bool \<Rightarrow> json \<Rightarrow> json \<Rightarrow> result \<times> event list" where
  "poll_status sv cb check_token vid = poll_attempts sv cb vid [0..<60] check_token"

text \<open>
  \<^verbatim>\<open>SheerIDVerifier._handle_api_response\<close>. The first component is the exception that
  leaves the call, if any: \<^verbatim>\<open>data.get\<close> on a value that is no dictionary, or an
  unhashable \<^verbatim>\<open>vid\<close> as a key of \<^verbatim>\<open>results\<close>.
\<close>

definition handle_api_response ::
  "service \<Rightarrow> bool \<Rightarrow> json \<Rightarrow> results \<Rightarrow> string option \<times> results \<times> event list" where
  "handle_api_response sv cb data res =
     (case data of
        JObj d \<Rightarrow>
          (let vid = dict_get d ''verificationId'' in
           if \<not> truthy vid then (None, res, [])
           else
             let status = dict_get d ''currentStep'';
                 message = dict_get_default d ''message'' (JStr []);
                 ev = callback cb vid (Step_msg status message)
             in if status = JStr ''pending'' \<and> map_of d ''checkToken'' \<noteq> None then
                  (let (final_res, ev') = poll_status sv cb (dict_get d ''checkToken'') vid in
                   case dict_key vid of
                     Some k \<Rightarrow> (None, res(k \<mapsto> final_res), ev @ ev')
                   | None \<Rightarrow> (Some ''TypeError'', res, ev @ ev'))
                else if status = JStr ''success'' \<or> status = JStr ''error'' then
                  (case dict_key vid of
                     Some k \<Rightarrow> (None, res(k \<mapsto> Service data), ev)
                   | None \<Rightarrow> (Some ''TypeError'', res, ev))
                else (None, res, ev))
      | _ \<Rightarrow> (Some ''AttributeError'', res, []))"

text \<open>
  The loop of \<^verbatim>\<open>verify_batch\<close> over \<^verbatim>\<open>resp.iter_lines()\<close>. The first component is the
  exception that ends the loop, if any. A line that does not parse as JSON is passed
  over.
\<close>

fun parse_stream ::
  "service \<Rightarrow> bool \<Rightarrow> stream_item list \<Rightarrow> results \<Rightarrow> string option \<times> results \<times> event list" where
  "parse_stream sv cb [] res = (None, res, [])"
| "parse_stream sv cb (Broken e # rest) res = (Some e, res, [])"
| "parse_stream sv cb (Undecodable # rest) res = (Some ''UnicodeDecodeError'', res, [])"
| "parse_stream sv cb (Line l # rest) res =
     (if l = [] then parse_stream sv cb rest res
      else if startswith l ''data:'' then
        (case json_loads sv (strip (drop 5 l)) of
           None \<Rightarrow> parse_stream sv cb rest res
         | Some data \<Rightarrow>
             (case handle_api_response sv cb data res of
                (Some e, res', ev) \<Rightarrow> (Some e, res', ev)
              | (None, res', ev) \<Rightarrow>
                  (let (x, res'', ev') = parse_stream sv cb rest res'
                   in (x, res'', ev @ ev'))))
      else parse_stream sv cb rest res)"

text \<open>The handler of \<^verbatim>\<open>verify_batch\<close>: every identifier without a result gets the error.\<close>

definition backfill :: "string list \<Rightarrow> string \<Rightarrow> results \<Rightarrow> results" where
  "backfill ids e res =
     foldl (\<lambda>r vid. if r (JStr vid) = None
                     then r(JStr vid \<mapsto> Local_error (Request_failed e)) else r) res ids"

text \<open>\<^verbatim>\<open>{vid: {"status": "error", "message": ...} for vid in verification_ids}\<close>\<close>

definition all_failed :: "string list \<Rightarrow> failure \<Rightarrow> results" where
  "all_failed ids f = map_of (map (\<lambda>vid. (JStr vid, Local_error f)) ids)"

text \<open>
  The client's own state: the token it holds, and how many token fetches and batch
  posts it has made.
\<close>

record client =
  csrf_token :: "string option"
  fetches :: nat
  posts :: nat

text \<open>\<^verbatim>\<open>SheerIDVerifier._get_csrf_token\<close>: the page fetch and the pattern search, as one step.\<close>

definition get_csrf_token :: "service \<Rightarrow> client \<Rightarrow> bool \<times> client \<times> event list" where
  "get_csrf_token sv c =
     (case csrf_page sv (fetches c) of
        Some t \<Rightarrow> (True, c\<lparr>csrf_token := Some t, fetches := Suc (fetches c)\<rparr>, [Csrf_fetch])
      | None \<Rightarrow> (False, c\<lparr>fetches := Suc (fetches c)\<rparr>, [Csrf_fetch]))"

text \<open>\<^verbatim>\<open>self.session.post(BASE_URL/api/batch, ...)\<close>, with the token header it carries.\<close>

definition post_batch :: "service \<Rightarrow> client \<Rightarrow> batch_reply \<times> client \<times> event list" where
  "post_batch sv c =
     (batch_answer sv (posts c), c\<lparr>posts := Suc (posts c)\<rparr>, [Batch_post (csrf_token c)])"

text \<open>The part of \<^verbatim>\<open>verify_batch\<close> from \<^verbatim>\<open># Check response status\<close> on.\<close>

definition read_response ::
  "service \<Rightarrow> bool \<Rightarrow> string list \<Rightarrow> nat \<Rightarrow> string \<Rightarrow> stream_item list
     \<Rightarrow> results \<times> event list" where
  "read_response sv cb ids code body lines =
     (if code \<noteq> 200 then (all_failed ids (Http_status code (take 200 body)), [])
      else case parse_stream sv cb lines Map.empty of
             (None, res, ev) \<Rightarrow> (res, ev)
           | (Some e, res, ev) \<Rightarrow> (backfill ids e res, ev))"

text \<open>\<^verbatim>\<open>SheerIDVerifier.verify_batch(verification_ids, callback)\<close>\<close>

definition verify_batch ::
  "service \<Rightarrow> bool \<Rightarrow> client \<Rightarrow> string list \<Rightarrow> results \<times> client \<times> event list" where
  "verify_batch sv cb c0 ids =
     (let (ok0, c1, ev1) = get_csrf_token sv c0;
          (reply, c2, ev2) = post_batch sv c1
      in case reply of
           Post_raises e \<Rightarrow> (backfill ids e Map.empty, c2, ev1 @ ev2)
         | Response code body lines \<Rightarrow>
             if code = 403 \<or> code = 401 then
               (let (ok, c3, ev3) = get_csrf_token sv c2 in
                if ok then
                  (let (reply2, c4, ev4) = post_batch sv c3 in
                   case reply2 of
                     Post_raises e \<Rightarrow> (backfill ids e Map.empty, c4, ev1 @ ev2 @ ev3 @ ev4)
                   | Response code2 body2 lines2 \<Rightarrow>
                       (let (res, ev5) = read_response sv cb ids code2 body2 lines2
                        in (res, c4, ev1 @ ev2 @ ev3 @ ev4 @ ev5)))
                else (all_failed ids Token_refresh_failed, c3, ev1 @ ev2 @ ev3))
             else
               (let (res, ev3) = read_response sv cb ids code body lines
                in (res, c2, ev1 @ ev2 @ ev3)))"

subsection \<open>The polling loop, as the specification words it\<close>

text \<open>
  A reply is terminal when it is a dictionary whose step is \<^verbatim>\<open>success\<close> or \<^verbatim>\<open>error\<close>; a
  reply refreshes the token when it is a dictionary with a \<^verbatim>\<open>checkToken\<close>.
\<close>

definition terminal :: "check_reply \<Rightarrow> bool" where
  "terminal r =
     (case r of
        Check_json (JObj d) \<Rightarrow>
          dict_get d ''currentStep'' = JStr ''success'' \<or> dict_get d ''currentStep'' = JStr ''error''
      | _ \<Rightarrow> False)"

definition refreshed_token :: "check_reply \<Rightarrow> json option" where
  "refreshed_token r = (case r of Check_json (JObj d) \<Rightarrow> map_of d ''checkToken'' | _ \<Rightarrow> None)"

text \<open>The token attempt \<open>i\<close> sends, and the reply it gets.\<close>

fun token_at :: "service \<Rightarrow> json \<Rightarrow> nat \<Rightarrow> json" where
  "token_at sv t 0 = t"
| "token_at sv t (Suc i) =
     (case refreshed_token (check_answer sv (token_at sv t i) i) of
        Some t' \<Rightarrow> t'
      | None \<Rightarrow> token_at sv t i)"

definition reply_at :: "service \<Rightarrow> json \<Rightarrow> nat \<Rightarrow> check_reply" where
  "reply_at sv t i = check_answer sv (token_at sv t i) i"

text \<open>The number of attempts: up to the first terminal reply, 60 when there is none.\<close>

definition attempts_made :: "service \<Rightarrow> json \<Rightarrow> nat" where
  "attempts_made sv t =
     (case find (\<lambda>i. terminal (reply_at sv t i)) [0..<60] of Some i \<Rightarrow> Suc i | None \<Rightarrow> 60)"

text \<open>What the callback is told about a reply, and the events of attempt \<open>i\<close>.\<close>

definition progress_msg :: "check_reply \<Rightarrow> nat \<Rightarrow> callback_msg" where
  "progress_msg r i =
     (case r of
        Check_timeout \<Rightarrow> Polling_timeout_msg (i + 1)
      | Check_raises e \<Rightarrow> Polling_error_msg (take 50 e) (i + 1)
      | Check_json (JObj d) \<Rightarrow>
          Polling_msg (dict_get d ''currentStep'') (i + 1) (dict_get_default d ''message'' (JStr []))
      | Check_json _ \<Rightarrow> Polling_error_msg ''AttributeError'' (i + 1))"

definition attempt_events :: "service \<Rightarrow> bool \<Rightarrow> json \<Rightarrow> json \<Rightarrow> nat \<Rightarrow> event list" where
  "attempt_events sv cb vid t i =
     [Sleep 2, Check_post (token_at sv t i)] @ callback cb vid (progress_msg (reply_at sv t i) i)"

definition final_result :: "service \<Rightarrow> json \<Rightarrow> result" where
  "final_result sv t =
     (case find (\<lambda>i. terminal (reply_at sv t i)) [0..<60] of
        Some i \<Rightarrow> (case reply_at sv t i of Check_json j \<Rightarrow> Service j
                   | _ \<Rightarrow> Local_error Polling_budget_exhausted)
      | None \<Rightarrow> Local_error Polling_budget_exhausted)"

text \<open>Projections of a trace: the tokens polled with, the pauses, the callback calls,
  and the token headers of the batch posts.\<close>

fun check_posts :: "event list \<Rightarrow> json list" where
  "check_posts [] = []"
| "check_posts (Check_post t # es) = t # check_posts es"
| "check_posts (e # es) = check_posts es"

fun sleeps :: "event list \<Rightarrow> nat list" where
  "sleeps [] = []"
| "sleeps (Sleep d # es) = d # sleeps es"
| "sleeps (e # es) = sleeps es"

fun callbacks :: "event list \<Rightarrow> (json \<times> callback_msg) list" where
  "callbacks [] = []"
| "callbacks (Callback vid m # es) = (vid, m) # callbacks es"
| "callbacks (e # es) = callbacks es"

fun batch_posts :: "event list \<Rightarrow> string option list" where
  "batch_posts [] = []"
| "batch_posts (Batch_post h # es) = h # batch_posts es"
| "batch_posts (e # es) = batch_posts es"

section \<open>The batch orchestrator\<close>

text \<open>An account as the orchestrator gets it: the browser profile and the email.\<close>

record account =
  browser_id :: string
  account_email :: string

text \<open>
  A task is one call \<^verbatim>\<open>_process_single_account_wrapper(account, current_card, index)\<close>.
  The trace of \<^verbatim>\<open>_process_all\<close>: its three log lines, and \<open>Gather tasks\<close> for
  \<^verbatim>\<open>await asyncio.gather(*tasks)\<close>, which starts the tasks of one batch and returns when
  every one of them has finished.
\<close>

type_synonym task = "account \<times> card \<times> nat"

datatype orch_event =
    Log_batch nat nat nat
  | Log_switch nat
  | Log_exhausted
  | Gather "task list"







text \<open>The task lists gathered, in order, and all tasks of a run.\<close>

fun gathered :: "orch_event list \<Rightarrow> task list list" where
  "gathered [] = []"
| "gathered (Gather tasks # es) = tasks # gathered es"
| "gathered (e # es) = gathered es"





section \<open>Properties\<close>

subsection \<open>Account lines\<close>

lemma parse_link_prefixed_line:
  "parse ''https://svc/verify?x=1----user@x.com----pw----rec----otp'' =
     (Some ''user@x.com'', Some ''pw'', Some ''rec'', Some ''otp'', Some ''https://svc/verify?x=1'')"
  by code_simp

text \<open>
  C9. The link-prefixed line of the specification's example, read by \<open>simple_parse\<close>:
  the link pattern runs over the separators to the end of the line, so the whole line
  becomes the link and no field is left. (\<open>parse\<close> reads the same line as the
  specification says, see \<open>parse_link_prefixed_line\<close>.)
\<close>

theorem simple_parse_link_prefixed_line:
  "simple_parse ''https://svc/verify?x=1----user@x.com----pw----rec----otp'' =
     (None, None, None, None,
      Some ''https://svc/verify?x=1----user@x.com----pw----rec----otp'')"
  by code_simp

subsection \<open>Upsert\<close>

lemma foldl_set_column_email [simp]: "col_email (foldl set_column r fs) = col_email r"
proof (induction fs arbitrary: r)
  case Nil show ?case by simp
next
  case (Cons f fs)
  obtain c v where "f = (c, v)" by (cases f)
  then show ?case using Cons by (cases c) simp_all
qed

lemma foldl_set_column_updated_at [simp]: "col_updated_at (foldl set_column r fs) = col_updated_at r"
proof (induction fs arbitrary: r)
  case Nil show ?case by simp
next
  case (Cons f fs)
  obtain c v where "f = (c, v)" by (cases f)
  then show ?case using Cons by (cases c) simp_all
qed

lemma foldl_set_column_fields:
  "foldl set_column r (update_fields pw rc sk lk st msg) =
     r\<lparr>col_password := (case pw of Some v \<Rightarrow> Some v | None \<Rightarrow> col_password r),
       col_recovery_email := (case rc of Some v \<Rightarrow> Some v | None \<Rightarrow> col_recovery_email r),
       col_secret_key := (case sk of Some v \<Rightarrow> Some v | None \<Rightarrow> col_secret_key r),
       col_verification_link := (case lk of Some v \<Rightarrow> Some v | None \<Rightarrow> col_verification_link r),
       col_status := (case st of Some v \<Rightarrow> Some v | None \<Rightarrow> col_status r),
       col_message := (case msg of Some v \<Rightarrow> Some v | None \<Rightarrow> col_message r)\<rparr>"
  by (cases pw; cases rc; cases sk; cases lk; cases st; cases msg)
     (simp_all add: update_fields_def supplied_def)

lemma find_sql_update:
  "find (\<lambda>r. col_email r = em) rows = Some r0 \<Longrightarrow>
   find (\<lambda>r. col_email r = em) (sql_update now fs em rows) =
     Some ((foldl set_column r0 fs)\<lparr>col_updated_at := now\<rparr>)"
  by (induction rows) (auto simp: sql_update_def)

lemma sql_update_emails: "map col_email (sql_update now fs em rows) = map col_email rows"
  by (induction rows) (auto simp: sql_update_def)

lemma sql_update_others:
  "r \<in> set rows \<Longrightarrow> col_email r \<noteq> em \<Longrightarrow> r \<in> set (sql_update now fs em rows)"
  by (induction rows) (auto simp: sql_update_def)

lemma upsert_existing:
  assumes "em \<noteq> []" and "find (\<lambda>r. col_email r = em) rows = Some r0" and "\<forall>op. \<not> F op"
  shows "upsert_account F now rows em pw rc sk lk st msg =
     (Returned,
      if update_fields pw rc sk lk st msg = [] then rows
      else sql_update now (update_fields pw rc sk lk st msg) em rows,
      if update_fields pw rc sk lk st msg = [] then [] else [Updated em st])"
  using assms by (simp add: upsert_account_def upsert_body_def Let_def)

text \<open>
  C6, as the code has it. An upsert with a non-empty email on an existing row, with the
  storage available, sets exactly the columns whose argument is not \<open>None\<close> (an empty
  string is a value and is stored), keeps every other column and every other row, and
  the read that follows returns that row. \<open>updated_at\<close> becomes the current time when
  at least one column is supplied; a call that supplies none leaves the row, its
  timestamp included, as it was (the \<^verbatim>\<open>UPDATE\<close> is guarded by \<^verbatim>\<open>if fields:\<close>).
\<close>

theorem upsert_existing_updates_supplied_fields:
  assumes "em \<noteq> []" and "find (\<lambda>r. col_email r = em) rows = Some r0" and "\<forall>op. \<not> F op"
  shows "let res = upsert_account F now rows em pw rc sk lk st msg; rows' = fst (snd res) in
     fst res = Returned \<and>
     map col_email rows' = map col_email rows \<and>
     (\<forall>r \<in> set rows. col_email r \<noteq> em \<longrightarrow> r \<in> set rows') \<and>
     read_account F rows' em =
       Inr (Some (r0\<lparr>
         col_password := (case pw of Some v \<Rightarrow> Some v | None \<Rightarrow> col_password r0),
         col_recovery_email := (case rc of Some v \<Rightarrow> Some v | None \<Rightarrow> col_recovery_email r0),
         col_secret_key := (case sk of Some v \<Rightarrow> Some v | None \<Rightarrow> col_secret_key r0),
         col_verification_link := (case lk of Some v \<Rightarrow> Some v | None \<Rightarrow> col_verification_link r0),
         col_status := (case st of Some v \<Rightarrow> Some v | None \<Rightarrow> col_status r0),
         col_message := (case msg of Some v \<Rightarrow> Some v | None \<Rightarrow> col_message r0),
         col_updated_at :=
           (if pw = None \<and> rc = None \<and> sk = None \<and> lk = None \<and> st = None \<and> msg = None
            then col_updated_at r0 else now)\<rparr>))"
proof -
  have eq: "(pw = None \<and> rc = None \<and> sk = None \<and> lk = None \<and> st = None \<and> msg = None) =
            (update_fields pw rc sk lk st msg = [])"
    by (auto simp: update_fields_def supplied_def split: option.splits)
  show ?thesis
  proof (cases "update_fields pw rc sk lk st msg = []")
    case True
    with eq have "pw = None" "rc = None" "sk = None" "lk = None" "st = None" "msg = None"
      by simp_all
    then show ?thesis
      using True
      by (simp add: upsert_existing [OF assms] read_account_def get_all_accounts_def assms)
  next
    case False
    show ?thesis
      unfolding eq using False
      by (simp add: upsert_existing [OF assms] read_account_def get_all_accounts_def assms
          find_sql_update sql_update_emails sql_update_others foldl_set_column_fields)
  qed
qed

theorem upsert_existing_updates_supplied_fields_witness:
  "let r0 = \<lparr>col_email = ''user@x.com'', col_password = Some ''pw'', col_recovery_email = None,
          col_secret_key = None, col_verification_link = None, col_status = Some ''pending'',
          col_message = None, col_updated_at = 5\<rparr>
   in read_account (\<lambda>op. False)
     (fst (snd (upsert_account (\<lambda>op. False) 10 [r0]
        ''user@x.com'' None None None None (Some ''verified'') None)))
     ''user@x.com''
   = Inr (Some \<lparr>col_email = ''user@x.com'', col_password = Some ''pw'', col_recovery_email = None,
          col_secret_key = None, col_verification_link = None, col_status = Some ''verified'',
          col_message = None, col_updated_at = 10\<rparr>)"
  using upsert_existing_updates_supplied_fields [of "''user@x.com''"
      "[\<lparr>col_email = ''user@x.com'', col_password = Some ''pw'', col_recovery_email = None,
          col_secret_key = None, col_verification_link = None, col_status = Some ''pending'',
          col_message = None, col_updated_at = 5\<rparr>]"
      "\<lparr>col_email = ''user@x.com'', col_password = Some ''pw'', col_recovery_email = None,
          col_secret_key = None, col_verification_link = None, col_status = Some ''pending'',
          col_message = None, col_updated_at = 5\<rparr>"
      "\<lambda>op. False" 10 None None None None "Some ''verified''" None]
  by (simp add: Let_def)


text \<open>
  C6 as stated fails: it lets the timestamp advance on a call that supplies no field.
  Here the row was written at time 5, the call is made at time 10 with the email only,
  and the read returns the row with timestamp 5.
\<close>

theorem upsert_without_fields_keeps_timestamp:
  "read_account (\<lambda>op. False)
     (fst (snd (upsert_account (\<lambda>op. False) 10
        [\<lparr>col_email = ''user@x.com'', col_password = Some ''pw'', col_recovery_email = None,
          col_secret_key = None, col_verification_link = None, col_status = Some ''pending'',
          col_message = None, col_updated_at = 5\<rparr>]
        ''user@x.com'' None None None None None None)))
     ''user@x.com''
   = Inr (Some \<lparr>col_email = ''user@x.com'', col_password = Some ''pw'', col_recovery_email = None,
          col_secret_key = None, col_verification_link = None, col_status = Some ''pending'',
          col_message = None, col_updated_at = 5\<rparr>)"
  by (simp add: upsert_account_def upsert_body_def update_fields_def supplied_def
      read_account_def get_all_accounts_def)





subsection \<open>Export\<close>

lemma upd_map_add:
  "files ++ (Map.empty(name \<mapsto> v) ++ M) = files(name \<mapsto> v) ++ M"
  by (auto simp: map_add_def fun_eq_iff split: option.splits)

lemma write_main_no_faults:
  "\<forall>op. \<not> F op \<Longrightarrow>
   \<exists>lg'. write_main F data fm files lg =
     Inr (files ++ map_of (rev (map (\<lambda>p. (snd p,
            file_text (case data (fst p) of Some ls \<Rightarrow> ls | None \<Rightarrow> []))) fm)), lg')"
proof (induction fm arbitrary: files lg)
  case Nil
  show ?case by simp
next
  case (Cons p fm)
  obtain st name where p: "p = (st, name)" by (cases p)
  show ?case
    using Cons.IH [OF Cons.prems] Cons.prems
    by (simp add: p Let_def upd_map_add)
qed

lemma export_no_faults:
  "\<exists>V. dom V = set view_files \<and>
       (\<forall>F files. (\<forall>op. \<not> F op) \<longrightarrow>
          (\<exists>lg. export_to_files F rows files = (Returned, files ++ V, lg)))"
proof -
  obtain data pend where g: "group_rows rows = (data, pend)" by (cases "group_rows rows")
  define V where "V = (map_of (rev (map (\<lambda>p. (snd p,
      file_text (case data (fst p) of Some ls \<Rightarrow> ls | None \<Rightarrow> []))) files_map)))
      (pending_file \<mapsto> file_text pend)"
  have "dom V = set view_files"
    unfolding V_def view_files_def
    by (auto simp: dom_map_of_conv_image_fst image_image)
  moreover have "\<exists>lg. export_to_files F rows files = (Returned, files ++ V, lg)"
    if nf: "\<forall>op. \<not> F op" for F files
  proof -
    from write_main_no_faults [OF nf, of data files_map files "[]"]
    obtain lg' where "write_main F data files_map files [] =
      Inr (files ++ map_of (rev (map (\<lambda>p. (snd p,
            file_text (case data (fst p) of Some ls \<Rightarrow> ls | None \<Rightarrow> []))) files_map)), lg')"
      by blast
    then show ?thesis
      using nf g by (simp add: export_to_files_def V_def)
  qed
  ultimately show ?thesis by blast
qed

text \<open>
  C8. With the storage and the file system available, a second export of the same table
  leaves every file as the first export left it, each of the six view files exists after
  an export, and its content does not depend on what the file system held before (the
  views are overwritten in full).
\<close>

theorem export_to_files_idempotent:
  assumes "\<forall>op. \<not> F1 op" and "\<forall>op. \<not> F2 op"
  shows "let files1 = fst (snd (export_to_files F1 rows files0));
             files2 = fst (snd (export_to_files F2 rows files1))
         in files2 = files1 \<and>
            (\<forall>name \<in> set view_files.
               files1 name \<noteq> None \<and>
               files1 name = fst (snd (export_to_files F2 rows other_files)) name)"
proof -
  obtain V where d: "dom V = set view_files"
    and e: "\<And>F files. \<forall>op. \<not> F op \<Longrightarrow> \<exists>lg. export_to_files F rows files = (Returned, files ++ V, lg)"
    using export_no_faults [of rows] by blast
  obtain lg1 where 1: "export_to_files F1 rows files0 = (Returned, files0 ++ V, lg1)"
    using e [OF assms(1)] by blast
  obtain lg2 where 2: "export_to_files F2 rows (files0 ++ V) = (Returned, (files0 ++ V) ++ V, lg2)"
    using e [OF assms(2)] by blast
  obtain lg3 where 3: "export_to_files F2 rows other_files = (Returned, other_files ++ V, lg3)"
    using e [OF assms(2)] by blast
  have idem: "(files0 ++ V) ++ V = files0 ++ V"
    by (auto simp: map_add_def fun_eq_iff split: option.splits)
  have A: "\<forall>name \<in> set view_files.
      (files0 ++ V) name \<noteq> None \<and> (files0 ++ V) name = (other_files ++ V) name"
    using d by (auto simp: map_add_def split: option.splits)
  show ?thesis
    unfolding Let_def 1 2 3 fst_conv snd_conv idem using A by blast
qed

theorem export_to_files_idempotent_witness:
  "fst (snd (export_to_files (\<lambda>op. False)
       [\<lparr>col_email = ''user@x.com'', col_password = Some ''pw'', col_recovery_email = None,
         col_secret_key = None, col_verification_link = None, col_status = Some ''subscribed'',
         col_message = None, col_updated_at = 5\<rparr>]
       (fst (snd (export_to_files (\<lambda>op. False)
          [\<lparr>col_email = ''user@x.com'', col_password = Some ''pw'', col_recovery_email = None,
            col_secret_key = None, col_verification_link = None,
            col_status = Some ''subscribed'', col_message = None, col_updated_at = 5\<rparr>]
          Map.empty)))))
   = fst (snd (export_to_files (\<lambda>op. False)
       [\<lparr>col_email = ''user@x.com'', col_password = Some ''pw'', col_recovery_email = None,
         col_secret_key = None, col_verification_link = None, col_status = Some ''subscribed'',
         col_message = None, col_updated_at = 5\<rparr>]
       Map.empty))"
  using export_to_files_idempotent [of "\<lambda>op. False" "\<lambda>op. False"
      "[\<lparr>col_email = ''user@x.com'', col_password = Some ''pw'', col_recovery_email = None,
         col_secret_key = None, col_verification_link = None, col_status = Some ''subscribed'',
         col_message = None, col_updated_at = 5\<rparr>]" Map.empty Map.empty]
  by (simp add: Let_def)

lemma export_example:
  "fst (snd (export_to_files (\<lambda>op. False)
       [\<lparr>col_email = ''user@x.com'', col_password = Some ''pw'', col_recovery_email = None,
         col_secret_key = None, col_verification_link = Some ''https://svc/verify?x=1'',
         col_status = Some ''link_ready'', col_message = None, col_updated_at = 5\<rparr>]
       Map.empty)) ''sheerIDlink.txt''
   = Some (''https://svc/verify?x=1----user@x.com----pw'' @ [CHR 0x0A])"
  by (simp add: export_to_files_def group_rows_def files_map_def add_row_def line_acc_def
      field_suffix_def file_text_def pending_file_def)

subsection \<open>The link-ready handler\<close>

lemma upsert_account_rows:
  assumes "s \<noteq> []"
  shows "\<forall>r' \<in> set (fst (snd (upsert_account F now rows em pw rc sk lk (Some s) msg))).
           r' \<in> set rows \<or> col_status r' = Some s"
proof (cases "upsert_body F now rows em pw rc sk lk (Some s) msg")
  case (Inl e)
  then show ?thesis by (simp add: upsert_account_def)
next
  case (Inr p)
  then have "\<forall>r' \<in> set (fst p). r' \<in> set rows \<or> col_status r' = Some s"
    using assms
    by (auto simp: upsert_body_def sql_update_def sql_insert_def foldl_set_column_fields Let_def
        split: if_splits option.splits)
  with Inr show ?thesis by (cases p) (simp add: upsert_account_def)
qed

lemma move_to_rows:
  assumes "s \<noteq> []"
  shows "\<forall>r' \<in> set (fst (move_to s F now line (rows, files))).
           r' \<in> set rows \<or> col_status r' = Some s"
proof -
  obtain em pwd rc sec link where p: "parse line = (em, pwd, rc, sec, link)"
    by (cases "parse line") auto
  show ?thesis
  proof (cases em)
    case None
    then show ?thesis by (simp add: move_to_def p)
  next
    case (Some e)
    show ?thesis
      using upsert_account_rows [OF assms, of F now rows e pwd rc sec link None]
      by (simp add: move_to_def p Some split_beta Let_def)
  qed
qed

lemma verify_single_missing: "getattr SheerIDVerifier_attributes ''verify_single'' =
  Inl ''SheerIDVerifier object has no attribute verify_single''"
  by (simp add: getattr_def SheerIDVerifier_attributes_def)

text \<open>
  C10. Whatever the page, the storage and the collaborators do, \<open>handle_link_ready\<close>
  reports failure: \<^verbatim>\<open>verify_single\<close> is not an attribute of the verifier, so the lookup
  raises before the method could be called. The account is never moved to verified and
  no card is bound; the only rows the handler writes have status \<^verbatim>\<open>link_ready\<close>.
\<close>

theorem handle_link_ready_always_fails:
  "let (res, store', steps) = handle_link_ready F now pg em card_info (rows, files)
   in fst res = False \<and>
      Call_verifier \<notin> set steps \<and> Move_to_verified \<notin> set steps \<and> Bind_card \<notin> set steps \<and>
      (\<forall>r' \<in> set (fst store'). r' \<in> set rows \<or> col_status r' = Some ''link_ready'')"
proof -
  have rows: "\<forall>r' \<in> set (fst (save_link F now line (rows, files))).
      r' \<in> set rows \<or> col_status r' = Some ''link_ready''" for line
    unfolding save_link_def by (rule move_to_rows) simp
  show ?thesis
  proof (cases "extracted_link pg")
    case None
    then show ?thesis by (simp add: handle_link_ready_def)
  next
    case (Some link)
    show ?thesis
    proof (cases "link = []")
      case True
      with Some show ?thesis by (simp add: handle_link_ready_def)
    next
      case False
      obtain rows1 files1 lg1 where s: "save_link F now (link @ ''----'' @ em) (rows, files) = (rows1, files1, lg1)"
        by (cases "save_link F now (link @ ''----'' @ em) (rows, files)") auto
      from rows [of "link @ ''----'' @ em"] s
      have "\<forall>r' \<in> set rows1. r' \<in> set rows \<or> col_status r' = Some ''link_ready''" by simp
      then show ?thesis
        using Some False s by (simp add: handle_link_ready_def verify_single_missing)
    qed
  qed
qed

theorem handle_link_ready_always_fails_witness:
  "fst (fst (handle_link_ready (\<lambda>op. False) 10
      \<lparr>extracted_link = Some ''https://services.sheerid.com/verify/abc'',
        verify_answer = (True, ''abc'', ''ok''), reload_answer = None,
        bind_answer = Inr (True, ''bound'')\<rparr>
      ''user@x.com''
      (Some \<lparr>number = ''4111'', exp_month = ''01'', exp_year = ''30'', cvv = ''123''\<rparr>)
      ([], Map.empty))) = False"
  using handle_link_ready_always_fails [of "\<lambda>op. False" 10
      "\<lparr>extracted_link = Some ''https://services.sheerid.com/verify/abc'',
        verify_answer = (True, ''abc'', ''ok''), reload_answer = None,
        bind_answer = Inr (True, ''bound'')\<rparr>"
      "''user@x.com''"
      "Some \<lparr>number = ''4111'', exp_month = ''01'', exp_year = ''30'', cvv = ''123''\<rparr>"
      "[]" Map.empty]
  by (simp add: split_beta)

lemma handle_link_ready_example:
  "handle_link_ready (\<lambda>op. False) 10
      \<lparr>extracted_link = Some ''https://services.sheerid.com/verify/abc'',
        verify_answer = (True, ''abc'', ''ok''), reload_answer = None,
        bind_answer = Inr (True, ''bound'')\<rparr>
      ''user@x.com''
      (Some \<lparr>number = ''4111'', exp_month = ''01'', exp_year = ''30'', cvv = ''123''\<rparr>)
      ([], Map.empty)
   = ((False, ''Error handling link_ready status: SheerIDVerifier object has no attribute verify_single''),
      ([\<lparr>col_email = ''user@x.com'', col_password = None, col_recovery_email = None,
         col_secret_key = None,
         col_verification_link = Some ''https://services.sheerid.com/verify/abc'',
         col_status = Some ''link_ready'', col_message = None, col_updated_at = 10\<rparr>],
       fst (snd (export_to_files (\<lambda>op. False)
         [\<lparr>col_email = ''user@x.com'', col_password = None, col_recovery_email = None,
           col_secret_key = None,
           col_verification_link = Some ''https://services.sheerid.com/verify/abc'',
           col_status = Some ''link_ready'', col_message = None, col_updated_at = 10\<rparr>]
         Map.empty))),
      [Save_link, Construct_verifier])"
proof -
  have p: "parse ''https://services.sheerid.com/verify/abc----user@x.com'' =
    (Some ''user@x.com'', None, None, None, Some ''https://services.sheerid.com/verify/abc'')"
    by code_simp
  show ?thesis
    by (simp add: handle_link_ready_def save_link_def move_to_def p verify_single_missing
        upsert_account_def upsert_body_def sql_insert_def split_beta)
qed

subsection \<open>The polling loop\<close>

lemma poll_attempts_terminal:
  assumes "terminal (check_answer sv tok i)"
  shows "poll_attempts sv cb vid (i # rest) tok =
     ((case check_answer sv tok i of Check_json j \<Rightarrow> Service j
       | _ \<Rightarrow> Local_error Polling_budget_exhausted),
      [Sleep 2, Check_post tok] @ callback cb vid (progress_msg (check_answer sv tok i) i))"
proof (cases "check_answer sv tok i")
  case (Check_json j)
  with assms show ?thesis
    by (cases j) (auto simp: terminal_def progress_msg_def)
qed (use assms in \<open>simp_all add: terminal_def\<close>)

lemma poll_attempts_transient:
  assumes "\<not> terminal (check_answer sv tok i)"
  shows "poll_attempts sv cb vid (i # rest) tok =
     (let tok' = (case refreshed_token (check_answer sv tok i) of Some t' \<Rightarrow> t' | None \<Rightarrow> tok);
          (r, ev) = poll_attempts sv cb vid rest tok'
      in (r, [Sleep 2, Check_post tok] @ callback cb vid (progress_msg (check_answer sv tok i) i)
             @ ev))"
proof (cases "check_answer sv tok i")
  case (Check_json j)
  with assms show ?thesis
    by (cases j) (auto simp: terminal_def progress_msg_def refreshed_token_def Let_def)
qed (simp_all add: progress_msg_def refreshed_token_def)

lemma poll_attempts_upt:
  "poll_attempts sv cb vid [k..<m] (token_at sv t k) =
     (case find (\<lambda>i. terminal (reply_at sv t i)) [k..<m] of
        Some i \<Rightarrow>
          ((case reply_at sv t i of Check_json j \<Rightarrow> Service j
            | _ \<Rightarrow> Local_error Polling_budget_exhausted),
           concat (map (attempt_events sv cb vid t) [k..<Suc i]))
      | None \<Rightarrow>
          (Local_error Polling_budget_exhausted,
           concat (map (attempt_events sv cb vid t) [k..<m])))"
proof (induction "m - k" arbitrary: k)
  case 0
  then show ?case by simp
next
  case (Suc n)
  then have km: "k < m" and n: "n = m - Suc k" by simp_all
  note IH = Suc.hyps(1) [OF n]
  have upt: "[k..<m] = k # [Suc k..<m]" using km by (simp add: upt_conv_Cons)
  show ?case
  proof (cases "terminal (reply_at sv t k)")
    case True
    then have "terminal (check_answer sv (token_at sv t k) k)" by (simp add: reply_at_def)
    from poll_attempts_terminal [OF this] True show ?thesis
      by (simp add: upt attempt_events_def reply_at_def)
  next
    case False
    then have nt: "\<not> terminal (check_answer sv (token_at sv t k) k)" by (simp add: reply_at_def)
    have step: "poll_attempts sv cb vid [k..<m] (token_at sv t k) =
       (let (r, ev) = poll_attempts sv cb vid [Suc k..<m] (token_at sv t (Suc k))
        in (r, attempt_events sv cb vid t k @ ev))"
      unfolding upt poll_attempts_transient [OF nt]
      by (simp add: attempt_events_def reply_at_def Let_def)
    show ?thesis
    proof (cases "find (\<lambda>i. terminal (reply_at sv t i)) [Suc k..<m]")
      case None
      then show ?thesis
        unfolding step IH using False by (simp add: upt)
    next
      case (Some i)
      then have "Suc k \<le> i" by (auto simp: find_Some_iff)
      then have "[k..<Suc i] = k # [Suc k..<Suc i]" by (simp add: upt_conv_Cons)
      then show ?thesis
        unfolding step IH using False Some by (simp add: upt)
    qed
  qed
qed

lemma poll_status_eq:
  "poll_status sv cb tok vid =
     (final_result sv tok, concat (map (attempt_events sv cb vid tok) [0..<attempts_made sv tok]))"
  using poll_attempts_upt [of sv cb vid 0 60 tok]
  by (simp add: poll_status_def final_result_def attempts_made_def split: option.splits)

lemma attempts_made_le: "attempts_made sv t \<le> 60"
  by (auto simp: attempts_made_def find_Some_iff split: option.splits)

lemma check_posts_append [simp]: "check_posts (xs @ ys) = check_posts xs @ check_posts ys"
  by (induction xs rule: check_posts.induct) simp_all

lemma sleeps_append [simp]: "sleeps (xs @ ys) = sleeps xs @ sleeps ys"
  by (induction xs rule: sleeps.induct) simp_all

lemma callbacks_append [simp]: "callbacks (xs @ ys) = callbacks xs @ callbacks ys"
  by (induction xs rule: callbacks.induct) simp_all

lemma batch_posts_append [simp]: "batch_posts (xs @ ys) = batch_posts xs @ batch_posts ys"
  by (induction xs rule: batch_posts.induct) simp_all

lemma projections_callback [simp]:
  "check_posts (callback cb vid m) = []" "sleeps (callback cb vid m) = []"
  "batch_posts (callback cb vid m) = []"
  "callbacks (callback cb vid m) = (if cb then [(vid, m)] else [])"
  by (simp_all add: callback_def)

lemma check_posts_attempts:
  "check_posts (concat (map (attempt_events sv cb vid t) xs)) = map (token_at sv t) xs"
  by (induction xs) (simp_all add: attempt_events_def)

lemma sleeps_attempts:
  "sleeps (concat (map (attempt_events sv cb vid t) xs)) = replicate (length xs) 2"
  by (induction xs) (simp_all add: attempt_events_def)

lemma callbacks_attempts:
  "callbacks (concat (map (attempt_events sv cb vid t) xs)) =
     (if cb then map (\<lambda>i. (vid, progress_msg (reply_at sv t i) i)) xs else [])"
  by (induction xs) (simp_all add: attempt_events_def)

lemma batch_posts_attempts:
  "batch_posts (concat (map (attempt_events sv cb vid t) xs)) = []"
  by (induction xs) (simp_all add: attempt_events_def)

lemma final_result_first_terminal:
  assumes "i < 60" and "terminal (reply_at sv t i)" and "\<forall>j<i. \<not> terminal (reply_at sv t j)"
  shows "attempts_made sv t = Suc i"
    and "\<exists>j. reply_at sv t i = Check_json j \<and> final_result sv t = Service j"
proof -
  have f: "find (\<lambda>i. terminal (reply_at sv t i)) [0..<60] = Some i"
    using assms by (auto simp: find_Some_iff intro!: exI [of _ i])
  show "attempts_made sv t = Suc i" by (simp add: attempts_made_def f)
  from assms(2) obtain j where "reply_at sv t i = Check_json j"
    by (cases "reply_at sv t i") (simp_all add: terminal_def)
  then show "\<exists>j. reply_at sv t i = Check_json j \<and> final_result sv t = Service j"
    by (simp add: final_result_def f)
qed

lemma final_result_exhausted:
  "(final_result sv t = Local_error Polling_budget_exhausted) =
     (\<forall>i<60. \<not> terminal (reply_at sv t i))"
proof (cases "find (\<lambda>i. terminal (reply_at sv t i)) [0..<60]")
  case None
  then have "\<forall>i<60. \<not> terminal (reply_at sv t i)" by (auto simp: find_None_iff)
  with None show ?thesis by (simp add: final_result_def)
next
  case (Some i)
  then have i: "i < 60" "terminal (reply_at sv t i)" by (auto simp: find_Some_iff)
  then obtain j where "reply_at sv t i = Check_json j"
    by (cases "reply_at sv t i") (simp_all add: terminal_def)
  with Some i show ?thesis by (auto simp: final_result_def)
qed

lemma attempts_made_exhausted:
  "\<forall>i<60. \<not> terminal (reply_at sv t i) \<Longrightarrow> attempts_made sv t = 60"
  by (cases "find (\<lambda>i. terminal (reply_at sv t i)) [0..<60]")
     (auto simp: attempts_made_def find_Some_iff)

text \<open>
  C3. A call of \<open>poll_status\<close> makes \<open>n \<le> 60\<close> attempts, where \<open>n\<close> ends with the first
  terminal reply (success or error) and is 60 when there is none. Its trace is the
  attempts in order, each one a pause of 2, the post with the current token, and the
  callback when one is supplied; the token of an attempt is the last one a reply has
  carried. A timeout or another exception of an attempt is never terminal. The result
  is the terminal reply, and it is the client's own timeout error exactly when none of
  the 60 replies is terminal.
\<close>

theorem poll_status_bounded_polling:
  "let (res, tr) = poll_status sv cb tok vid; n = attempts_made sv tok in
     n \<le> 60 \<and>
     tr = concat (map (attempt_events sv cb vid tok) [0..<n]) \<and>
     sleeps tr = replicate n 2 \<and>
     check_posts tr = map (token_at sv tok) [0..<n] \<and>
     callbacks tr = (if cb then map (\<lambda>i. (vid, progress_msg (reply_at sv tok i) i)) [0..<n] else []) \<and>
     \<not> terminal Check_timeout \<and> \<not> terminal (Check_raises e) \<and>
     (\<forall>i<60. terminal (reply_at sv tok i) \<and> (\<forall>j<i. \<not> terminal (reply_at sv tok j)) \<longrightarrow>
        n = Suc i \<and> (\<exists>j. reply_at sv tok i = Check_json j \<and> res = Service j)) \<and>
     ((\<forall>i<60. \<not> terminal (reply_at sv tok i)) \<longrightarrow> n = 60) \<and>
     (res = Local_error Polling_budget_exhausted) = (\<forall>i<60. \<not> terminal (reply_at sv tok i))"
  unfolding poll_status_eq Let_def prod.case
  by (intro conjI attempts_made_le refl)
     (simp_all add: sleeps_attempts check_posts_attempts callbacks_attempts terminal_def
        final_result_first_terminal attempts_made_exhausted final_result_exhausted)

theorem poll_status_bounded_polling_witness:
  "poll_status
     \<lparr>csrf_page = (\<lambda>n. None), batch_answer = (\<lambda>n. Post_raises []),
      check_answer = (\<lambda>t i.
        if i = 0 then Check_json (JObj [(''currentStep'', JStr ''pending''), (''checkToken'', JStr ''t1'')])
        else if i = 1 then Check_timeout
        else Check_json (JObj [(''currentStep'', JStr ''error''), (''message'', JStr ''rejected'')])),
      json_loads = (\<lambda>s. None)\<rparr>
     True (JStr ''t0'') (JStr ''a2'')
   = (Service (JObj [(''currentStep'', JStr ''error''), (''message'', JStr ''rejected'')]),
      [Sleep 2, Check_post (JStr ''t0''),
       Callback (JStr ''a2'') (Polling_msg (JStr ''pending'') 1 (JStr [])),
       Sleep 2, Check_post (JStr ''t1''),
       Callback (JStr ''a2'') (Polling_timeout_msg 2),
       Sleep 2, Check_post (JStr ''t1''),
       Callback (JStr ''a2'') (Polling_msg (JStr ''error'') 3 (JStr ''rejected''))])"
proof -
  define sv where "sv = \<lparr>csrf_page = (\<lambda>n. None), batch_answer = (\<lambda>n. Post_raises []),
      check_answer = (\<lambda>t i.
        if i = 0 then Check_json (JObj [(''currentStep'', JStr ''pending''), (''checkToken'', JStr ''t1'')])
        else if i = 1 then Check_timeout
        else Check_json (JObj [(''currentStep'', JStr ''error''), (''message'', JStr ''rejected'')])),
      json_loads = (\<lambda>s. None)\<rparr>"
  have t: "token_at sv (JStr ''t0'') 0 = JStr ''t0''" "token_at sv (JStr ''t0'') 1 = JStr ''t1''"
    "token_at sv (JStr ''t0'') 2 = JStr ''t1''"
    by (simp_all add: sv_def refreshed_token_def eval_nat_numeral)
  have r: "reply_at sv (JStr ''t0'') 0 =
        Check_json (JObj [(''currentStep'', JStr ''pending''), (''checkToken'', JStr ''t1'')])"
      "reply_at sv (JStr ''t0'') 1 = Check_timeout"
      "reply_at sv (JStr ''t0'') 2 =
        Check_json (JObj [(''currentStep'', JStr ''error''), (''message'', JStr ''rejected'')])"
    by (simp_all add: reply_at_def sv_def)
  have last: "terminal (reply_at sv (JStr ''t0'') 2)"
    "\<forall>j<2. \<not> terminal (reply_at sv (JStr ''t0'') j)"
    using r by (auto simp: terminal_def dict_get_def less_Suc_eq eval_nat_numeral)
  have up: "[0..<Suc 2] = [0, 1, 2]" by (simp add: upt_rec)
  obtain res tr where p: "poll_status sv True (JStr ''t0'') (JStr ''a2'') = (res, tr)"
    by (cases "poll_status sv True (JStr ''t0'') (JStr ''a2'')")
  note T = poll_status_bounded_polling [of sv True "JStr ''t0''" "JStr ''a2''",
      unfolded p Let_def prod.case]
  from T have A: "tr = concat (map (attempt_events sv True (JStr ''a2'') (JStr ''t0''))
               [0..<attempts_made sv (JStr ''t0'')])"
    and B: "\<forall>i<60. terminal (reply_at sv (JStr ''t0'') i) \<and>
              (\<forall>j<i. \<not> terminal (reply_at sv (JStr ''t0'') j)) \<longrightarrow>
              attempts_made sv (JStr ''t0'') = Suc i \<and>
              (\<exists>j. reply_at sv (JStr ''t0'') i = Check_json j \<and> res = Service j)"
    by blast+
  from B [rule_format, of 2] last
  have n: "attempts_made sv (JStr ''t0'') = Suc 2"
    and "\<exists>j. reply_at sv (JStr ''t0'') 2 = Check_json j \<and> res = Service j"
    by simp_all
  then have res: "res = Service (JObj [(''currentStep'', JStr ''error''), (''message'', JStr ''rejected'')])"
    using r by simp
  have "tr = [Sleep 2, Check_post (JStr ''t0''),
       Callback (JStr ''a2'') (Polling_msg (JStr ''pending'') 1 (JStr [])),
       Sleep 2, Check_post (JStr ''t1''),
       Callback (JStr ''a2'') (Polling_timeout_msg 2),
       Sleep 2, Check_post (JStr ''t1''),
       Callback (JStr ''a2'') (Polling_msg (JStr ''error'') 3 (JStr ''rejected''))]"
    unfolding A n up using t r
    by (simp add: attempt_events_def callback_def progress_msg_def dict_get_def
        dict_get_default_def)
  with res p show ?thesis unfolding sv_def by simp
qed
subsection \<open>Batch submission\<close>

lemma all_failed_apply:
  "vid \<in> set ids \<Longrightarrow> all_failed ids f (JStr vid) = Some (Local_error f)"
  unfolding all_failed_def by (induction ids) auto

lemma backfill_apply:
  "backfill ids e res k =
     (case res k of
        Some r \<Rightarrow> Some r
      | None \<Rightarrow> if k \<in> JStr ` set ids then Some (Local_error (Request_failed e)) else None)"
  unfolding backfill_def
proof (induction ids arbitrary: res)
  case Nil
  show ?case by (simp split: option.splits)
next
  case (Cons vid ids)
  show ?case by (auto simp: Cons split: option.splits)
qed

lemma backfill_empty:
  "vid \<in> set ids \<Longrightarrow> backfill ids e Map.empty (JStr vid) = Some (Local_error (Request_failed e))"
  by (simp add: backfill_apply)

lemma batch_posts_poll_status: "batch_posts (snd (poll_status sv cb tok vid)) = []"
  by (simp add: poll_status_eq batch_posts_attempts)

lemma batch_posts_handle_api_response:
  "batch_posts (snd (snd (handle_api_response sv cb data res))) = []"
proof (cases data)
  case (JObj d)
  obtain r ev where p: "poll_status sv cb (dict_get d ''checkToken'') (dict_get d ''verificationId'') = (r, ev)"
    by (cases "poll_status sv cb (dict_get d ''checkToken'') (dict_get d ''verificationId'')")
  with batch_posts_poll_status [of sv cb "dict_get d ''checkToken''" "dict_get d ''verificationId''"]
  have "batch_posts ev = []" by simp
  then show ?thesis
    using JObj p by (simp add: handle_api_response_def Let_def split: option.splits)
qed (simp_all add: handle_api_response_def)

lemma batch_posts_parse_stream:
  "batch_posts (snd (snd (parse_stream sv cb lines res))) = []"
proof (induction sv cb lines res rule: parse_stream.induct)
  case (4 sv cb l rest res)
  show ?case
  proof (cases "l = []")
    case True
    with 4 show ?thesis by simp
  next
    case False
    show ?thesis
    proof (cases "startswith l ''data:''")
      case False
      with \<open>l \<noteq> []\<close> 4 show ?thesis by simp
    next
      case True
      show ?thesis
      proof (cases "json_loads sv (strip (drop 5 l))")
        case None
        with True \<open>l \<noteq> []\<close> 4 show ?thesis by simp
      next
        case (Some data)
        obtain x res' ev where h: "handle_api_response sv cb data res = (x, res', ev)"
          by (cases "handle_api_response sv cb data res")
        with batch_posts_handle_api_response [of sv cb data res]
        have ev: "batch_posts ev = []" by simp
        show ?thesis
        proof (cases x)
          case None
          obtain y res'' ev' where q: "parse_stream sv cb rest res' = (y, res'', ev')"
            by (cases "parse_stream sv cb rest res'")
          from "4.IH"(3) [OF \<open>l \<noteq> []\<close> True Some h [symmetric] None refl] q
          have "batch_posts ev' = []" by simp
          with ev show ?thesis
            using True \<open>l \<noteq> []\<close> Some h None q by simp
        next
          case (Some e)
          with ev show ?thesis
            using True \<open>l \<noteq> []\<close> \<open>json_loads sv (strip (drop 5 l)) = Some data\<close> h by simp
        qed
      qed
    qed
  qed
qed simp_all

lemma batch_posts_read_response:
  "batch_posts (snd (read_response sv cb ids code body lines)) = []"
proof -
  obtain x res ev where q: "parse_stream sv cb lines Map.empty = (x, res, ev)"
    by (cases "parse_stream sv cb lines Map.empty")
  with batch_posts_parse_stream [of sv cb lines Map.empty] have "batch_posts ev = []" by simp
  then show ?thesis
    using q by (simp add: read_response_def split: option.splits)
qed

lemma read_response_failure:
  "code \<noteq> 200 \<Longrightarrow>
   read_response sv cb ids code body lines = (all_failed ids (Http_status code (take 200 body)), [])"
  by (simp add: read_response_def)

text \<open>
  C2, as the code has it. When the first reply to the batch post is 401 or 403, the
  client fetches the token once more (two fetches in all). If that forced refresh
  fails, there is no retry: one post in all, and every identifier gets the error
  "token expired and refresh failed". If it succeeds, there is exactly one retry, with
  the new token, and never a third post; a retry that raises or is answered by any
  status other than 200 (401 and 403 among them) gives every identifier an error
  result.
\<close>

theorem verify_batch_auth_retry:
  assumes "batch_answer sv (posts c0) = Response code body lines"
    and "code = 401 \<or> code = 403"
  shows "let (res, c', ev) = verify_batch sv cb c0 ids;
             held = (case csrf_page sv (fetches c0) of Some t \<Rightarrow> Some t | None \<Rightarrow> csrf_token c0)
         in fetches c' = fetches c0 + 2 \<and>
            (case csrf_page sv (Suc (fetches c0)) of
               None \<Rightarrow>
                 posts c' = posts c0 + 1 \<and> batch_posts ev = [held] \<and>
                 (\<forall>vid \<in> set ids. res (JStr vid) = Some (Local_error Token_refresh_failed))
             | Some t \<Rightarrow>
                 posts c' = posts c0 + 2 \<and> batch_posts ev = [held, Some t] \<and>
                 (case batch_answer sv (Suc (posts c0)) of
                    Post_raises e \<Rightarrow>
                      (\<forall>vid \<in> set ids. res (JStr vid) = Some (Local_error (Request_failed e)))
                  | Response code2 body2 lines2 \<Rightarrow>
                      code2 \<noteq> 200 \<longrightarrow>
                      (\<forall>vid \<in> set ids.
                         res (JStr vid) = Some (Local_error (Http_status code2 (take 200 body2))))))"
proof (cases "csrf_page sv (Suc (fetches c0))")
  case None
  then show ?thesis
    using assms
    by (auto simp: verify_batch_def get_csrf_token_def post_batch_def Let_def all_failed_apply
        split: option.splits)
next
  case (Some t)
  show ?thesis
  proof (cases "batch_answer sv (Suc (posts c0))")
    case (Post_raises e)
    then show ?thesis
      using assms Some
      by (auto simp: verify_batch_def get_csrf_token_def post_batch_def Let_def backfill_empty
          split: option.splits)
  next
    case (Response code2 body2 lines2)
    obtain res ev5 where rr: "read_response sv cb ids code2 body2 lines2 = (res, ev5)"
      by (cases "read_response sv cb ids code2 body2 lines2")
    with batch_posts_read_response [of sv cb ids code2 body2 lines2]
    have ev5: "batch_posts ev5 = []" by simp
    have fail: "code2 \<noteq> 200 \<Longrightarrow> res = all_failed ids (Http_status code2 (take 200 body2))"
      using rr by (simp add: read_response_failure)
    show ?thesis
      using assms Some Response rr ev5 fail
      by (auto simp: verify_batch_def get_csrf_token_def post_batch_def Let_def all_failed_apply
          split: option.splits)
  qed
qed
theorem verify_batch_auth_retry_witness:
  "let (res, c', ev) =
         verify_batch
           \<lparr>csrf_page = (\<lambda>n. if n = 0 then Some ''t0'' else Some ''t1''),
            batch_answer = (\<lambda>n. Response 403 ''Forbidden'' []),
            check_answer = (\<lambda>t i. Check_timeout), json_loads = (\<lambda>s. None)\<rparr>
           False \<lparr>csrf_token = None, fetches = 0, posts = 0\<rparr> [''a1'', ''a2'']
   in batch_posts ev = [Some ''t0'', Some ''t1''] \<and> posts c' = 2 \<and> fetches c' = 2 \<and>
      res (JStr ''a1'') = Some (Local_error (Http_status 403 ''Forbidden'')) \<and>
      res (JStr ''a2'') = Some (Local_error (Http_status 403 ''Forbidden''))"
  using verify_batch_auth_retry [of
      "\<lparr>csrf_page = (\<lambda>n. if n = 0 then Some ''t0'' else Some ''t1''),
        batch_answer = (\<lambda>n. Response 403 ''Forbidden'' []),
        check_answer = (\<lambda>t i. Check_timeout), json_loads = (\<lambda>s. None)\<rparr>"
      "\<lparr>csrf_token = None, fetches = 0, posts = 0\<rparr>" 403 "''Forbidden''" "[]" False
      "[''a1'', ''a2'']"]
  by (simp add: Let_def split_beta)

text \<open>
  C2 as stated fails: "exactly one retry" does not hold when the forced refresh fails.
  Here the first post is answered 403 and the forced refresh finds no token: the client
  has made one post and no retry, and both identifiers carry the refresh error.
\<close>

theorem verify_batch_no_retry_when_refresh_fails:
  "verify_batch
     \<lparr>csrf_page = (\<lambda>n. if n = 0 then Some ''t0'' else None),
      batch_answer = (\<lambda>n. Response 403 ''Forbidden'' []),
      check_answer = (\<lambda>t i. Check_timeout), json_loads = (\<lambda>s. None)\<rparr>
     False \<lparr>csrf_token = None, fetches = 0, posts = 0\<rparr> [''a1'', ''a2'']
   = (all_failed [''a1'', ''a2''] Token_refresh_failed,
      \<lparr>csrf_token = Some ''t0'', fetches = 2, posts = 1\<rparr>,
      [Csrf_fetch, Batch_post (Some ''t0''), Csrf_fetch])"
  by (simp add: verify_batch_def get_csrf_token_def post_batch_def)

text \<open>
  C1. A batch of two identifiers, answered 200 with a stream that carries a terminal
  event for \<^verbatim>\<open>a1\<close> and a pending event without a continuation token for \<^verbatim>\<open>a2\<close>:
  the returned map has an entry for \<^verbatim>\<open>a1\<close> and none for \<^verbatim>\<open>a2\<close>.
\<close>

theorem verify_batch_omits_identifier:
  \<open>let sv = \<lparr>csrf_page = (\<lambda>n. Some ''t0''),
        batch_answer = (\<lambda>n. Response 200 []
          [Line ''data: {"verificationId": "a1", "currentStep": "success"}'',
           Line [],
           Line ''data: {"verificationId": "a2", "currentStep": "pending"}'']),
        check_answer = (\<lambda>t i. Check_timeout),
        json_loads = (\<lambda>s.
          if s = ''{"verificationId": "a1", "currentStep": "success"}''
          then Some (JObj [(''verificationId'', JStr ''a1''), (''currentStep'', JStr ''success'')])
          else if s = ''{"verificationId": "a2", "currentStep": "pending"}''
          then Some (JObj [(''verificationId'', JStr ''a2''), (''currentStep'', JStr ''pending'')])
          else None)\<rparr>;
       res = fst (verify_batch sv False \<lparr>csrf_token = None, fetches = 0, posts = 0\<rparr>
                    [''a1'', ''a2''])
   in res (JStr ''a1'') =
        Some (Service (JObj [(''verificationId'', JStr ''a1''), (''currentStep'', JStr ''success'')]))
      \<and> res (JStr ''a2'') = None\<close>
  by code_simp

subsection \<open>Card assignment\<close>

lemma gathered_append [simp]: "gathered (xs @ ys) = gathered xs @ gathered ys"
  by (induction xs rule: gathered.induct) simp_all


















subsection \<open>Batches\<close>









end
